theory Spec2Isabelle
  imports Main
begin

text \<open>
  A shallow embedding of the EZ-Image component: the breakpoint catalog, the selection of
  the current size on resize, the two descriptor strings, URL resolution through the
  \<^verbatim>\<open>wsrv.nl\<close> proxy, and the preconnect and preload hints put into the document head.
\<close>

section \<open>Data model\<close>

text \<open>
  The component's \<^verbatim>\<open>Size\<close> type (imported from \<^verbatim>\<open>./types\<close>) is a pair of numbers,
  \<^verbatim>\<open>{ width, height }\<close>. The catalog of breakpoints is a \<^verbatim>\<open>Size[]\<close>, kept as a list
  in caller order. Widths and heights are taken as integers, the values the default table
  and the documented examples use.
\<close>

record Size =
  width :: int
  height :: int

definition DEFAULT_SIZES :: "Size list" where
  "DEFAULT_SIZES =
     [\<lparr>width = 320, height = 320\<rparr>, \<lparr>width = 480, height = 480\<rparr>,
      \<lparr>width = 768, height = 768\<rparr>, \<lparr>width = 1024, height = 1024\<rparr>,
      \<lparr>width = 1440, height = 1440\<rparr>, \<lparr>width = 1920, height = 1920\<rparr>,
      \<lparr>width = 2560, height = 2560\<rparr>, \<lparr>width = 3840, height = 3840\<rparr>]"

section \<open>Viewport tracking: \<^verbatim>\<open>handleResize\<close>\<close>

text \<open>
  \<^verbatim>\<open>
  const handleResize = () => {
    const viewportWidth = body?.clientWidth;
    let currSize;
    for (const size of sizes.filter(({ width }) => width <= viewportWidth)) {
      if (!currSize || size.width > currSize.width) {
        currSize = size;
      }
    }
    setCurrentSize(currSize);
  };
  \<close>
  \<^verbatim>\<open>body?.clientWidth\<close> is a number, or \<^verbatim>\<open>undefined\<close> when there is no body; a
  comparison with \<^verbatim>\<open>undefined\<close> is false, so the filter then keeps nothing. The loop
  variable \<^verbatim>\<open>currSize\<close> is \<^verbatim>\<open>undefined\<close> (here \<open>None\<close>) until the first assignment; an
  object is always truthy, so \<^verbatim>\<open>!currSize\<close> tests exactly for \<open>None\<close>. The function
  returns the value handed to \<^verbatim>\<open>setCurrentSize\<close>.
\<close>

definition width_le_viewport :: "int option \<Rightarrow> Size \<Rightarrow> bool" where
  "width_le_viewport viewportWidth sz =
     (case viewportWidth of None \<Rightarrow> False | Some v \<Rightarrow> width sz \<le> v)"

definition loop_body :: "Size \<Rightarrow> Size option \<Rightarrow> Size option" where
  "loop_body sz currSize =
     (case currSize of
        None \<Rightarrow> Some sz
      | Some c \<Rightarrow> if width sz > width c then Some sz else Some c)"

definition handleResize :: "Size list \<Rightarrow> int option \<Rightarrow> Size option" where
  "handleResize sizes viewportWidth =
     fold loop_body (filter (width_le_viewport viewportWidth) sizes) None"

section \<open>Strings: number rendering, \<^verbatim>\<open>startsWith\<close>, \<^verbatim>\<open>join\<close>\<close>

text \<open>
  A template literal renders a number with \<^verbatim>\<open>Number::toString\<close>. For an integer of
  magnitude below \<open>10\<^sup>2\<^sup>1\<close> that is its decimal numeral, with a leading \<^verbatim>\<open>-\<close> when
  negative; this is the rendering modelled here.
\<close>

definition digit_char :: "nat \<Rightarrow> char" where
  "digit_char d = ''0123456789'' ! (d mod 10)"

function decimal :: "nat \<Rightarrow> string" where
  "decimal n = (if n < 10 then [digit_char n] else decimal (n div 10) @ [digit_char (n mod 10)])"
  by pat_completeness auto
termination
  by (relation "measure id") auto

declare decimal.simps [simp del]

definition Number_toString :: "int \<Rightarrow> string" where
  "Number_toString i = (if i < 0 then ''-'' @ decimal (nat (- i)) else decimal (nat i))"

definition startsWith :: "string \<Rightarrow> string \<Rightarrow> bool" where
  "startsWith s p = (take (length p) s = p)"

text \<open>
  \<^verbatim>\<open>Array.prototype.join(sep)\<close>: the result starts empty; the elements are appended in
  index order, each one but the first preceded by the separator.
\<close>

definition join_step :: "string \<Rightarrow> string \<Rightarrow> (nat \<times> string) \<Rightarrow> (nat \<times> string)" where
  "join_step sep element st =
     (case st of (k, R) \<Rightarrow> (Suc k, (if k > 0 then R @ sep else R) @ element))"

definition join :: "string \<Rightarrow> string list \<Rightarrow> string" where
  "join sep elements = snd (fold (join_step sep) elements (0, []))"

section \<open>Descriptor strings: \<^verbatim>\<open>getWidths\<close> and \<^verbatim>\<open>createSrcSet\<close>\<close>

text \<open>
  \<^verbatim>\<open>
  const getWidths = (sizes: Size[]) =>
    sizes.map(({ width }) => `(max-width: ${width}px) ${width}px`).join(", ");
  \<close>
\<close>

definition getWidths :: "Size list \<Rightarrow> string" where
  "getWidths sizes =
     join '', ''
       (map (\<lambda>sz. ''(max-width: '' @ Number_toString (width sz) @ ''px) ''
                   @ Number_toString (width sz) @ ''px'') sizes)"

text \<open>
  \<^verbatim>\<open>
  const createSrcSet = (src: string, sizes: Size[], origin?: string) => {
    let trueSrc = src;
    if (!origin) {
      trueSrc = "//wsrv.nl?url=" + trueSrc;
    } else if (process.env.NODE_ENV === "production") {
      const srcWithOrigin = src.startsWith("/") ? origin + src : origin + "/" + src;
      trueSrc = "//wsrv.nl?url=" + srcWithOrigin;
    }
    return sizes
      .map(({ width, height }) => `${trueSrc}?w=${width}&h=${height} ${width}w`)
      .join(", ");
  };
  \<close>
  The optional \<^verbatim>\<open>origin\<close> is \<open>None\<close> when the caller passes none. \<^verbatim>\<open>!origin\<close> holds for
  \<^verbatim>\<open>undefined\<close> and for the empty string. The ambient \<^verbatim>\<open>process.env.NODE_ENV\<close> is a
  parameter: \<open>None\<close> when unset, otherwise its string. \<open>trueSrc\<close> is the value of the
  local variable of that name when the \<^verbatim>\<open>return\<close> is reached.
\<close>

definition falsy :: "string option \<Rightarrow> bool" where
  "falsy v = (case v of None \<Rightarrow> True | Some s \<Rightarrow> s = [])"

definition trueSrc :: "string option \<Rightarrow> string \<Rightarrow> string option \<Rightarrow> string" where
  "trueSrc NODE_ENV src origin =
     (if falsy origin then ''//wsrv.nl?url='' @ src
      else if NODE_ENV = Some ''production'' then
        (let srcWithOrigin =
               (if startsWith src ''/'' then the origin @ src else the origin @ ''/'' @ src)
         in ''//wsrv.nl?url='' @ srcWithOrigin)
      else src)"

definition candidate :: "string \<Rightarrow> Size \<Rightarrow> string" where
  "candidate url sz =
     url @ ''?w='' @ Number_toString (width sz) @ ''&h='' @ Number_toString (height sz)
         @ '' '' @ Number_toString (width sz) @ ''w''"

definition createSrcSet :: "string option \<Rightarrow> string \<Rightarrow> Size list \<Rightarrow> string option \<Rightarrow> string" where
  "createSrcSet NODE_ENV src sizes origin =
     join '', '' (map (candidate (trueSrc NODE_ENV src origin)) sizes)"

section \<open>The variant of \<^verbatim>\<open>createSrcSet\<close> in \<^verbatim>\<open>src/Image.tsx\<close>\<close>

text \<open>
  \<^verbatim>\<open>src/Image.tsx\<close> holds a second version of the component. Its \<^verbatim>\<open>getWidths\<close>, its
  resize handler and its preload effect are those above; its \<^verbatim>\<open>createSrcSet\<close> takes no
  origin and reads \<^verbatim>\<open>window.location.origin\<close> instead:
  \<^verbatim>\<open>
  const createSrcSet = (src: string, sizes: Size[], height: string = "") => {
    let trueSrc = src;
    if (process.env.NODE_ENV === "production") {
      if (!isDomain(src)) {
        trueSrc = src.startsWith("/")
          ? window.location.origin + src
          : window.location.origin + "/" + src;
      }
      trueSrc = "//wsrv.nl?url=" + trueSrc;
    }
    return sizes.map(({ width, height }) => `${trueSrc}?w=${width}&h=${height} ${width}w`).join(", ");
  };
  function isDomain(path: string) {
    return (
      /^(https?:\/\/|www\.)/i.test(path) ||
      /^[a-z0-9]+([\-\.]{1}[a-z0-9]+)*\.[a-z]{2,}/i.test(path)
    );
  }
  \<close>
  The third parameter is shadowed by the destructured \<^verbatim>\<open>height\<close> and never read. The two
  regular expressions are kept as syntax trees and run by a derivative matcher; both are
  anchored at the start only, so \<^verbatim>\<open>test\<close> succeeds when some prefix of the path matches.
  The flag \<^verbatim>\<open>i\<close> is written out: every letter stands for both of its cases.
\<close>

datatype rx = Fail | Empty | Cls "char list" | Seq rx rx | Alt rx rx | Star rx

fun nullable :: "rx \<Rightarrow> bool" where
  "nullable Fail = False"
| "nullable Empty = True"
| "nullable (Cls cs) = False"
| "nullable (Seq r s) = (nullable r \<and> nullable s)"
| "nullable (Alt r s) = (nullable r \<or> nullable s)"
| "nullable (Star r) = True"

fun deriv :: "char \<Rightarrow> rx \<Rightarrow> rx" where
  "deriv c Fail = Fail"
| "deriv c Empty = Fail"
| "deriv c (Cls cs) = (if c \<in> set cs then Empty else Fail)"
| "deriv c (Seq r s) =
     (if nullable r then Alt (Seq (deriv c r) s) (deriv c s) else Seq (deriv c r) s)"
| "deriv c (Alt r s) = Alt (deriv c r) (deriv c s)"
| "deriv c (Star r) = Seq (deriv c r) (Star r)"

fun RegExp_test :: "rx \<Rightarrow> string \<Rightarrow> bool" where
  "RegExp_test r [] = nullable r"
| "RegExp_test r (c # cs) = (nullable r \<or> RegExp_test (deriv c r) cs)"

definition Plus :: "rx \<Rightarrow> rx" where
  "Plus r = Seq r (Star r)"

definition alpha :: rx where
  "alpha = Cls ''abcdefghijklmnopqrstuvwxyzABCDEFGHIJKLMNOPQRSTUVWXYZ''"

definition alnum :: rx where
  "alnum = Cls ''abcdefghijklmnopqrstuvwxyzABCDEFGHIJKLMNOPQRSTUVWXYZ0123456789''"

definition scheme_or_www :: rx where
  "scheme_or_www =
     Alt (Seq (Cls ''hH'') (Seq (Cls ''tT'') (Seq (Cls ''tT'') (Seq (Cls ''pP'')
            (Seq (Alt (Cls ''sS'') Empty) (Seq (Cls '':'') (Seq (Cls ''/'') (Cls ''/''))))))))
         (Seq (Cls ''wW'') (Seq (Cls ''wW'') (Seq (Cls ''wW'') (Cls ''.''))))"

definition dotted_name :: rx where
  "dotted_name =
     Seq (Plus alnum) (Seq (Star (Seq (Cls ''-.'') (Plus alnum)))
       (Seq (Cls ''.'') (Seq alpha (Seq alpha (Star alpha)))))"

definition isDomain :: "string \<Rightarrow> bool" where
  "isDomain path = (RegExp_test scheme_or_www path \<or> RegExp_test dotted_name path)"

definition trueSrc_Image :: "string option \<Rightarrow> string \<Rightarrow> string \<Rightarrow> string" where
  "trueSrc_Image NODE_ENV location_origin src =
     (if NODE_ENV = Some ''production'' then
        ''//wsrv.nl?url='' @
          (if \<not> isDomain src then
             (if startsWith src ''/'' then location_origin @ src
              else location_origin @ ''/'' @ src)
           else src)
      else src)"

definition createSrcSet_Image :: "string option \<Rightarrow> string \<Rightarrow> string \<Rightarrow> Size list \<Rightarrow> string" where
  "createSrcSet_Image NODE_ENV location_origin src sizes =
     join '', '' (map (candidate (trueSrc_Image NODE_ENV location_origin src)) sizes)"

section \<open>Early-fetch hints: the preload effect\<close>

text \<open>
  \<^verbatim>\<open>
  if (preload) {
    const head = document.head;
    const preconnectLink = head.querySelector('link[href="//wsrv.nl"]');
    if (!preconnectLink) {
      const newPreconnectLink = document.createElement("link");
      newPreconnectLink.rel = "preconnect";
      newPreconnectLink.href = "//wsrv.nl";
      head.appendChild(newPreconnectLink);
    }
    const preloadLink = head.querySelector(
      `link[as="image"][imageSrcset="${srcSet}"][imageSizes="${sizeSet}"]`);
    if (!preloadLink) {
      const newPreloadLink = document.createElement("link");
      newPreloadLink.rel = "preload";
      newPreloadLink.as = "image";
      newPreloadLink.imageSrcset = srcSet;
      newPreloadLink.imageSizes = sizeSet;
      head.appendChild(newPreloadLink);
    }
  }
  \<close>
  The hint registry is the list of \<^verbatim>\<open>link\<close> elements of the document head, in document
  order; other elements never match a \<^verbatim>\<open>link[...]\<close> selector. An element carries the
  five attributes the effect reads or writes, each absent (\<open>None\<close>) or a string. An
  attribute selector \<^verbatim>\<open>[name="value"]\<close> holds when the attribute is present with exactly
  that value; the interpolated strings are taken literally, as they are when they hold no
  double quote, backslash or line break. \<^verbatim>\<open>querySelector\<close> returns the first match in
  document order, \<^verbatim>\<open>appendChild\<close> adds at the end.
\<close>

record link =
  rel :: "string option"
  href :: "string option"
  as_attr :: "string option"
  imageSrcset :: "string option"
  imageSizes :: "string option"

definition createElement_link :: link where
  "createElement_link =
     \<lparr>rel = None, href = None, as_attr = None, imageSrcset = None, imageSizes = None\<rparr>"

definition querySelector :: "(link \<Rightarrow> bool) \<Rightarrow> link list \<Rightarrow> link option" where
  "querySelector sel head = find sel head"

definition preconnect_selector :: "link \<Rightarrow> bool" where
  "preconnect_selector l = (href l = Some ''//wsrv.nl'')"

definition preload_selector :: "string \<Rightarrow> string \<Rightarrow> link \<Rightarrow> bool" where
  "preload_selector srcSet sizeSet l =
     (as_attr l = Some ''image'' \<and> imageSrcset l = Some srcSet \<and> imageSizes l = Some sizeSet)"

definition ensurePreconnect :: "link list \<Rightarrow> link list" where
  "ensurePreconnect head =
     (case querySelector preconnect_selector head of
        None \<Rightarrow>
          head @ [createElement_link\<lparr>rel := Some ''preconnect'', href := Some ''//wsrv.nl''\<rparr>]
      | Some preconnectLink \<Rightarrow> head)"

definition ensurePreload :: "string \<Rightarrow> string \<Rightarrow> link list \<Rightarrow> link list" where
  "ensurePreload srcSet sizeSet head =
     (case querySelector (preload_selector srcSet sizeSet) head of
        None \<Rightarrow>
          head @ [createElement_link\<lparr>rel := Some ''preload'', as_attr := Some ''image'',
                    imageSrcset := Some srcSet, imageSizes := Some sizeSet\<rparr>]
      | Some preloadLink \<Rightarrow> head)"

definition preload_effect :: "bool \<Rightarrow> string \<Rightarrow> string \<Rightarrow> link list \<Rightarrow> link list" where
  "preload_effect preload srcSet sizeSet head =
     (if preload then ensurePreload srcSet sizeSet (ensurePreconnect head) else head)"

text \<open>
  Mounting one instance:
  \<^verbatim>\<open>
  const Image = ({ src, sizes = __DEFAULT_SIZES__, preload = false, origin, ...rest }) => {
    const [currentSize, setCurrentSize] = useState<Size | undefined>();
    const sizeSet = getWidths(sizes);
    const srcSet = createSrcSet(src, sizes, origin);
    useEffect(() => { ... if (preload) {...} ... handleResize(); ... }, []);
  \<close>
  The props \<^verbatim>\<open>sizes\<close> and \<^verbatim>\<open>preload\<close> take their defaults when the caller leaves them out
  (\<open>None\<close>). The descriptor strings are computed from the props, the effect runs once on
  the document head, and the first measurement is taken. The result is the new head and
  the new \<^verbatim>\<open>currentSize\<close>.
\<close>

definition Image_mount ::
  "string option \<Rightarrow> string \<Rightarrow> Size list option \<Rightarrow> bool option \<Rightarrow> string option
     \<Rightarrow> link list \<Rightarrow> int option \<Rightarrow> link list \<times> Size option" where
  "Image_mount NODE_ENV src sizes_prop preload_prop origin head clientWidth =
     (let sizes = (case sizes_prop of None \<Rightarrow> DEFAULT_SIZES | Some given \<Rightarrow> given);
          preload = (case preload_prop of None \<Rightarrow> False | Some given \<Rightarrow> given);
          sizeSet = getWidths sizes;
          srcSet = createSrcSet NODE_ENV src sizes origin
      in (preload_effect preload srcSet sizeSet head, handleResize sizes clientWidth))"


section \<open>Auxiliary notions for statements and proofs\<close>

text \<open>
  The specification speaks of strings ``joined with a separator''. Read on its own, that
  is the first element, then separator and element for each further one, and nothing for
  no element at all.
\<close>

fun separated_by :: "string \<Rightarrow> string list \<Rightarrow> string" where
  "separated_by sep [] = []"
| "separated_by sep [x] = x"
| "separated_by sep (x # y # ys) = x @ sep @ separated_by sep (y # ys)"

text \<open>
  The loop body of \<^verbatim>\<open>handleResize\<close> under the test of its filter: one pass over the
  whole catalog with this step is the loop over the filtered catalog.
\<close>

definition guarded_body :: "int \<Rightarrow> Size \<Rightarrow> Size option \<Rightarrow> Size option" where
  "guarded_body vw sz currSize = (if width sz \<le> vw then loop_body sz currSize else currSize)"


section \<open>The selection loop\<close>

lemma fold_filter_guarded:
  "fold loop_body (filter (width_le_viewport (Some vw)) xs) acc = fold (guarded_body vw) xs acc"
  by (induction xs arbitrary: acc) (simp_all add: guarded_body_def width_le_viewport_def)

lemma fold_guarded_Some:
  "(fold (guarded_body vw) xs (Some c) = Some c
      \<and> (\<forall>y\<in>set xs. width y \<le> vw \<longrightarrow> width y \<le> width c))
   \<or> (\<exists>pre r post. xs = pre @ r # post \<and> fold (guarded_body vw) xs (Some c) = Some r
        \<and> width r \<le> vw \<and> width c < width r
        \<and> (\<forall>y\<in>set pre. width y \<le> vw \<longrightarrow> width y < width r)
        \<and> (\<forall>y\<in>set post. width y \<le> vw \<longrightarrow> width y \<le> width r))"
  (is "?keep xs c \<or> ?move xs c")
proof (induction xs arbitrary: c)
  case Nil
  then show ?case by simp
next
  case (Cons x xs)
  show ?case
  proof (cases "width x \<le> vw \<and> width c < width x")
    case True
    then have f: "fold (guarded_body vw) (x # xs) (Some c) = fold (guarded_body vw) xs (Some x)"
      by (simp add: guarded_body_def loop_body_def)
    from Cons.IH [of x] show ?thesis
    proof
      assume k: "?keep xs x"
      have "x # xs = [] @ x # xs" by simp
      with k f True have "?move (x # xs) c" by (metis empty_iff set_empty)
      then show ?thesis ..
    next
      assume "?move xs x"
      then obtain pre r post where m: "xs = pre @ r # post"
        "fold (guarded_body vw) xs (Some x) = Some r"
        "width r \<le> vw" "width x < width r"
        "\<forall>y\<in>set pre. width y \<le> vw \<longrightarrow> width y < width r"
        "\<forall>y\<in>set post. width y \<le> vw \<longrightarrow> width y \<le> width r" by blast
      have "x # xs = (x # pre) @ r # post" using m(1) by simp
      moreover have "\<forall>y\<in>set (x # pre). width y \<le> vw \<longrightarrow> width y < width r"
        using m(4,5) by simp
      moreover have "width c < width r" using True m(4) by simp
      ultimately have "?move (x # xs) c" using m(2,3,6) f by metis
      then show ?thesis ..
    qed
  next
    case False
    then have f: "fold (guarded_body vw) (x # xs) (Some c) = fold (guarded_body vw) xs (Some c)"
      by (auto simp add: guarded_body_def loop_body_def)
    from Cons.IH [of c] show ?thesis
    proof
      assume k: "?keep xs c"
      with f False have "?keep (x # xs) c" by auto
      then show ?thesis ..
    next
      assume "?move xs c"
      then obtain pre r post where m: "xs = pre @ r # post"
        "fold (guarded_body vw) xs (Some c) = Some r"
        "width r \<le> vw" "width c < width r"
        "\<forall>y\<in>set pre. width y \<le> vw \<longrightarrow> width y < width r"
        "\<forall>y\<in>set post. width y \<le> vw \<longrightarrow> width y \<le> width r" by blast
      have "x # xs = (x # pre) @ r # post" using m(1) by simp
      moreover have "\<forall>y\<in>set (x # pre). width y \<le> vw \<longrightarrow> width y < width r"
        using m(4,5) False by auto
      ultimately have "?move (x # xs) c" using m(2,3,4,6) f by metis
      then show ?thesis ..
    qed
  qed
qed

lemma fold_guarded_None:
  "(fold (guarded_body vw) xs None = None \<and> (\<forall>y\<in>set xs. \<not> width y \<le> vw))
   \<or> (\<exists>pre r post. xs = pre @ r # post \<and> fold (guarded_body vw) xs None = Some r
        \<and> width r \<le> vw
        \<and> (\<forall>y\<in>set pre. width y \<le> vw \<longrightarrow> width y < width r)
        \<and> (\<forall>y\<in>set post. width y \<le> vw \<longrightarrow> width y \<le> width r))"
  (is "?none xs \<or> ?found xs")
proof (induction xs)
  case Nil
  then show ?case by simp
next
  case (Cons x xs)
  show ?case
  proof (cases "width x \<le> vw")
    case True
    then have f: "fold (guarded_body vw) (x # xs) None = fold (guarded_body vw) xs (Some x)"
      by (simp add: guarded_body_def loop_body_def)
    from fold_guarded_Some [of vw xs x] show ?thesis
    proof
      assume k: "fold (guarded_body vw) xs (Some x) = Some x
        \<and> (\<forall>y\<in>set xs. width y \<le> vw \<longrightarrow> width y \<le> width x)"
      have "x # xs = [] @ x # xs" by simp
      with k f True have "?found (x # xs)" by (metis empty_iff set_empty)
      then show ?thesis ..
    next
      assume "\<exists>pre r post. xs = pre @ r # post \<and> fold (guarded_body vw) xs (Some x) = Some r
        \<and> width r \<le> vw \<and> width x < width r
        \<and> (\<forall>y\<in>set pre. width y \<le> vw \<longrightarrow> width y < width r)
        \<and> (\<forall>y\<in>set post. width y \<le> vw \<longrightarrow> width y \<le> width r)"
      then obtain pre r post where m: "xs = pre @ r # post"
        "fold (guarded_body vw) xs (Some x) = Some r"
        "width r \<le> vw" "width x < width r"
        "\<forall>y\<in>set pre. width y \<le> vw \<longrightarrow> width y < width r"
        "\<forall>y\<in>set post. width y \<le> vw \<longrightarrow> width y \<le> width r" by blast
      have "x # xs = (x # pre) @ r # post" using m(1) by simp
      moreover have "\<forall>y\<in>set (x # pre). width y \<le> vw \<longrightarrow> width y < width r"
        using m(4,5) by simp
      ultimately have "?found (x # xs)" using m(2,3,6) f by metis
      then show ?thesis ..
    qed
  next
    case False
    then have f: "fold (guarded_body vw) (x # xs) None = fold (guarded_body vw) xs None"
      by (simp add: guarded_body_def)
    from Cons.IH show ?thesis
    proof
      assume "?none xs"
      with f False have "?none (x # xs)" by simp
      then show ?thesis ..
    next
      assume "?found xs"
      then obtain pre r post where m: "xs = pre @ r # post"
        "fold (guarded_body vw) xs None = Some r"
        "width r \<le> vw"
        "\<forall>y\<in>set pre. width y \<le> vw \<longrightarrow> width y < width r"
        "\<forall>y\<in>set post. width y \<le> vw \<longrightarrow> width y \<le> width r" by blast
      have "x # xs = (x # pre) @ r # post" using m(1) by simp
      moreover have "\<forall>y\<in>set (x # pre). width y \<le> vw \<longrightarrow> width y < width r"
        using m(4) False by simp
      ultimately have "?found (x # xs)" using m(2,3,5) f by metis
      then show ?thesis ..
    qed
  qed
qed

text \<open>The same in terms of positions of the catalog.\<close>

lemma handleResize_position:
  "(handleResize sizes (Some vw) = None \<and> (\<forall>j<length sizes. \<not> width (sizes ! j) \<le> vw))
   \<or> (\<exists>i<length sizes. handleResize sizes (Some vw) = Some (sizes ! i)
        \<and> width (sizes ! i) \<le> vw
        \<and> (\<forall>j<length sizes. width (sizes ! j) \<le> vw \<longrightarrow> width (sizes ! j) \<le> width (sizes ! i))
        \<and> (\<forall>j<i. width (sizes ! j) \<le> vw \<longrightarrow> width (sizes ! j) < width (sizes ! i)))"
proof -
  have hr: "handleResize sizes (Some vw) = fold (guarded_body vw) sizes None"
    by (simp add: handleResize_def fold_filter_guarded)
  from fold_guarded_None [of vw sizes] show ?thesis
  proof
    assume "fold (guarded_body vw) sizes None = None \<and> (\<forall>y\<in>set sizes. \<not> width y \<le> vw)"
    then show ?thesis using hr by simp
  next
    assume "\<exists>pre r post. sizes = pre @ r # post \<and> fold (guarded_body vw) sizes None = Some r
        \<and> width r \<le> vw
        \<and> (\<forall>y\<in>set pre. width y \<le> vw \<longrightarrow> width y < width r)
        \<and> (\<forall>y\<in>set post. width y \<le> vw \<longrightarrow> width y \<le> width r)"
    then obtain pre r post where m: "sizes = pre @ r # post"
        "fold (guarded_body vw) sizes None = Some r"
        "width r \<le> vw"
        "\<forall>y\<in>set pre. width y \<le> vw \<longrightarrow> width y < width r"
        "\<forall>y\<in>set post. width y \<le> vw \<longrightarrow> width y \<le> width r" by blast
    let ?i = "length pre"
    have i: "?i < length sizes" and r: "sizes ! ?i = r" using m(1) by simp_all
    have before: "\<forall>j<?i. width (sizes ! j) \<le> vw \<longrightarrow> width (sizes ! j) < width r"
      using m(1,4) by (simp add: nth_append)
    have every: "\<forall>j<length sizes. width (sizes ! j) \<le> vw \<longrightarrow> width (sizes ! j) \<le> width r"
    proof (intro allI impI)
      fix j assume j: "j < length sizes" and q: "width (sizes ! j) \<le> vw"
      have "sizes ! j \<in> set sizes" using j by simp
      then have "sizes ! j \<in> set pre \<or> sizes ! j = r \<or> sizes ! j \<in> set post"
        using m(1) by auto
      then show "width (sizes ! j) \<le> width r" using m(4,5) q by force
    qed
    show ?thesis using i r hr m(2,3) before every by metis
  qed
qed

lemma first_max_unique:
  fixes ws :: "int list"
  assumes "i < length ws" "ws ! i \<le> vw"
    "\<forall>j<length ws. ws ! j \<le> vw \<longrightarrow> ws ! j \<le> ws ! i"
    "\<forall>j<i. ws ! j \<le> vw \<longrightarrow> ws ! j < ws ! i"
    "k < length ws" "ws ! k \<le> vw"
    "\<forall>j<length ws. ws ! j \<le> vw \<longrightarrow> ws ! j \<le> ws ! k"
    "\<forall>j<k. ws ! j \<le> vw \<longrightarrow> ws ! j < ws ! k"
  shows "i = k"
proof (rule ccontr)
  assume "i \<noteq> k"
  then consider "i < k" | "k < i" by arith
  then show False
  proof cases
    case 1
    then have "ws ! i < ws ! k" using assms(2,8) by simp
    moreover have "ws ! k \<le> ws ! i" using assms(3,5,6) by simp
    ultimately show False by simp
  next
    case 2
    then have "ws ! k < ws ! i" using assms(4,6) by simp
    moreover have "ws ! i \<le> ws ! k" using assms(1,2,7) by simp
    ultimately show False by simp
  qed
qed

text \<open>
  Claim C1. For every catalog and every viewport width, \<^verbatim>\<open>handleResize\<close> selects, among
  the breakpoints whose width is at most the viewport width, one of maximum width; of
  several breakpoints of that maximum width it selects the first in catalog order (no
  earlier position carries the same width); and when no breakpoint fits, it selects
  nothing.
\<close>

theorem handleResize_largest_fitting_first:
  "(if \<exists>j<length sizes. width (sizes ! j) \<le> vw
    then \<exists>i<length sizes.
           handleResize sizes (Some vw) = Some (sizes ! i)
         \<and> width (sizes ! i) \<le> vw
         \<and> (\<forall>j<length sizes. width (sizes ! j) \<le> vw \<longrightarrow> width (sizes ! j) \<le> width (sizes ! i))
         \<and> (\<forall>j<i. width (sizes ! j) \<noteq> width (sizes ! i))
    else handleResize sizes (Some vw) = None)"
proof (cases "\<exists>j<length sizes. width (sizes ! j) \<le> vw")
  case True
  with handleResize_position [of sizes vw]
  obtain i where i: "i < length sizes" "handleResize sizes (Some vw) = Some (sizes ! i)"
    "width (sizes ! i) \<le> vw"
    "\<forall>j<length sizes. width (sizes ! j) \<le> vw \<longrightarrow> width (sizes ! j) \<le> width (sizes ! i)"
    "\<forall>j<i. width (sizes ! j) \<le> vw \<longrightarrow> width (sizes ! j) < width (sizes ! i)"
    by blast
  have "\<forall>j<i. width (sizes ! j) \<noteq> width (sizes ! i)"
  proof (intro allI impI)
    fix j assume "j < i"
    then show "width (sizes ! j) \<noteq> width (sizes ! i)" using i(3,5) by force
  qed
  with i(1-4) True show ?thesis by auto
next
  case False
  with handleResize_position [of sizes vw] show ?thesis by auto
qed

theorem handleResize_largest_fitting_first_witness:
  "width ([\<lparr>width = 320, height = 1\<rparr>, \<lparr>width = 768, height = 2\<rparr>,
           \<lparr>width = 1024, height = 3\<rparr>, \<lparr>width = 768, height = 4\<rparr>] ! 1) \<le> 800
   \<and> handleResize [\<lparr>width = 320, height = 1\<rparr>, \<lparr>width = 768, height = 2\<rparr>,
                   \<lparr>width = 1024, height = 3\<rparr>, \<lparr>width = 768, height = 4\<rparr>] (Some 800)
       = Some \<lparr>width = 768, height = 2\<rparr>
   \<and> handleResize [\<lparr>width = 320, height = 1\<rparr>, \<lparr>width = 768, height = 2\<rparr>] (Some 100) = None"
  using handleResize_largest_fitting_first
          [of "[\<lparr>width = 320, height = 1\<rparr>, \<lparr>width = 768, height = 2\<rparr>,
                \<lparr>width = 1024, height = 3\<rparr>, \<lparr>width = 768, height = 4\<rparr>]" 800]
        handleResize_largest_fitting_first
          [of "[\<lparr>width = 320, height = 1\<rparr>, \<lparr>width = 768, height = 2\<rparr>]" 100]
  by (simp add: handleResize_def loop_body_def width_le_viewport_def)

lemma handleResize_undefined: "handleResize sizes None = None"
  by (simp add: handleResize_def width_le_viewport_def)

text \<open>
  Claim C10. Selection depends on the widths only: two catalogs with the same sequence of
  widths, whatever their heights, either both select nothing or select the same position
  \<open>i\<close>, the first position that carries the selected width.
\<close>

theorem handleResize_ignores_heights:
  assumes "map width c1 = map width c2"
  shows "(handleResize c1 vw = None \<and> handleResize c2 vw = None)
       \<or> (\<exists>i<length c1. handleResize c1 vw = Some (c1 ! i) \<and> handleResize c2 vw = Some (c2 ! i)
            \<and> (\<forall>j<i. width (c1 ! j) \<noteq> width (c1 ! i)))"
proof (cases vw)
  case None
  then show ?thesis by (simp add: handleResize_undefined)
next
  case (Some v)
  have len: "length c1 = length c2" using assms by (rule map_eq_imp_length_eq)
  have same: "width (c1 ! j) = width (c2 ! j)" if "j < length c1" for j
  proof -
    have "map width c1 ! j = map width c2 ! j" using assms by simp
    then show ?thesis using that len by simp
  qed
  from handleResize_position [of c1 v] show ?thesis
  proof
    assume n1: "handleResize c1 (Some v) = None \<and> (\<forall>j<length c1. \<not> width (c1 ! j) \<le> v)"
    then have "\<forall>j<length c2. \<not> width (c2 ! j) \<le> v" using same len by simp
    with handleResize_position [of c2 v] have "handleResize c2 (Some v) = None" by blast
    with n1 Some show ?thesis by simp
  next
    assume "\<exists>i<length c1. handleResize c1 (Some v) = Some (c1 ! i)
        \<and> width (c1 ! i) \<le> v
        \<and> (\<forall>j<length c1. width (c1 ! j) \<le> v \<longrightarrow> width (c1 ! j) \<le> width (c1 ! i))
        \<and> (\<forall>j<i. width (c1 ! j) \<le> v \<longrightarrow> width (c1 ! j) < width (c1 ! i))"
    then obtain i where i: "i < length c1" "handleResize c1 (Some v) = Some (c1 ! i)"
        "width (c1 ! i) \<le> v"
        "\<forall>j<length c1. width (c1 ! j) \<le> v \<longrightarrow> width (c1 ! j) \<le> width (c1 ! i)"
        "\<forall>j<i. width (c1 ! j) \<le> v \<longrightarrow> width (c1 ! j) < width (c1 ! i)" by blast
    have fit2: "width (c2 ! i) \<le> v" using i(1,3) same by simp
    with handleResize_position [of c2 v] i(1) len
    obtain k where k: "k < length c2" "handleResize c2 (Some v) = Some (c2 ! k)"
        "width (c2 ! k) \<le> v"
        "\<forall>j<length c2. width (c2 ! j) \<le> v \<longrightarrow> width (c2 ! j) \<le> width (c2 ! k)"
        "\<forall>j<k. width (c2 ! j) \<le> v \<longrightarrow> width (c2 ! j) < width (c2 ! k)" by force
    let ?ws = "map width c1"
    have "i = k"
    proof (rule first_max_unique [of i ?ws v k])
      show "i < length ?ws" using i(1) by simp
      show "?ws ! i \<le> v" using i(1,3) by simp
      show "\<forall>j<length ?ws. ?ws ! j \<le> v \<longrightarrow> ?ws ! j \<le> ?ws ! i" using i(1,4) by simp
      show "\<forall>j<i. ?ws ! j \<le> v \<longrightarrow> ?ws ! j < ?ws ! i" using i(1,5) by simp
      show "k < length ?ws" using k(1) len by simp
      show "?ws ! k \<le> v" using k(1,3) len same by simp
      show "\<forall>j<length ?ws. ?ws ! j \<le> v \<longrightarrow> ?ws ! j \<le> ?ws ! k"
        using k(1,4) len same by simp
      show "\<forall>j<k. ?ws ! j \<le> v \<longrightarrow> ?ws ! j < ?ws ! k"
        using k(1,5) len same by simp
    qed
    moreover have "\<forall>j<i. width (c1 ! j) \<noteq> width (c1 ! i)"
    proof (intro allI impI)
      fix j assume "j < i"
      then show "width (c1 ! j) \<noteq> width (c1 ! i)" using i(3,5) by force
    qed
    ultimately show ?thesis using i(1,2) k(2) Some by blast
  qed
qed

theorem handleResize_ignores_heights_witness:
  "map width [\<lparr>width = 320, height = 1\<rparr>, \<lparr>width = 768, height = 2\<rparr>, \<lparr>width = 768, height = 3\<rparr>]
     = map width [\<lparr>width = 320, height = 9\<rparr>, \<lparr>width = 768, height = 7\<rparr>, \<lparr>width = 768, height = 5\<rparr>]
   \<and> handleResize [\<lparr>width = 320, height = 1\<rparr>, \<lparr>width = 768, height = 2\<rparr>, \<lparr>width = 768, height = 3\<rparr>]
        (Some 800) = Some \<lparr>width = 768, height = 2\<rparr>
   \<and> handleResize [\<lparr>width = 320, height = 9\<rparr>, \<lparr>width = 768, height = 7\<rparr>, \<lparr>width = 768, height = 5\<rparr>]
        (Some 800) = Some \<lparr>width = 768, height = 7\<rparr>"
  using handleResize_ignores_heights
          [of "[\<lparr>width = 320, height = 1\<rparr>, \<lparr>width = 768, height = 2\<rparr>, \<lparr>width = 768, height = 3\<rparr>]"
              "[\<lparr>width = 320, height = 9\<rparr>, \<lparr>width = 768, height = 7\<rparr>, \<lparr>width = 768, height = 5\<rparr>]"
              "Some 800"]
  by (simp add: handleResize_def loop_body_def width_le_viewport_def)

section \<open>Joining\<close>

lemma fold_join_step:
  "snd (fold (join_step sep) xs (k, R)) =
     (if xs = [] then R else (if k > 0 then R @ sep else R) @ separated_by sep xs)"
proof (induction xs arbitrary: k R)
  case Nil
  then show ?case by simp
next
  case (Cons x xs)
  show ?case
  proof (cases xs)
    case Nil
    then show ?thesis by (simp add: join_step_def)
  next
    case (Cons y ys)
    have "snd (fold (join_step sep) (x # xs) (k, R)) =
            snd (fold (join_step sep) xs (Suc k, (if k > 0 then R @ sep else R) @ x))"
      by (simp add: join_step_def)
    also have "\<dots> = (((if k > 0 then R @ sep else R) @ x) @ sep) @ separated_by sep xs"
      using Cons.IH [of "Suc k" "(if k > 0 then R @ sep else R) @ x"] Cons by simp
    finally show ?thesis using Cons by simp
  qed
qed

lemma join_separated_by: "join sep xs = separated_by sep xs"
  by (simp add: join_def fold_join_step)

text \<open>
  Claim C4. The srcset string consists of exactly as many candidates as the catalog has
  breakpoints, in catalog order and joined by \<^verbatim>\<open>", "\<close>; the candidate of a breakpoint is
  the resolved URL followed by \<^verbatim>\<open>?w={width}&h={height} {width}w\<close>. (It holds for the empty
  catalog as well, with no candidate.)
\<close>

theorem createSrcSet_candidates:
  "\<exists>cands. length cands = length sizes
     \<and> (\<forall>i<length sizes.
           cands ! i = trueSrc NODE_ENV src origin
                        @ ''?w='' @ Number_toString (width (sizes ! i))
                        @ ''&h='' @ Number_toString (height (sizes ! i))
                        @ '' '' @ Number_toString (width (sizes ! i)) @ ''w'')
     \<and> createSrcSet NODE_ENV src sizes origin = separated_by '', '' cands"
proof -
  let ?cands = "map (candidate (trueSrc NODE_ENV src origin)) sizes"
  have "length ?cands = length sizes" by simp
  moreover have "\<forall>i<length sizes.
           ?cands ! i = trueSrc NODE_ENV src origin
                        @ ''?w='' @ Number_toString (width (sizes ! i))
                        @ ''&h='' @ Number_toString (height (sizes ! i))
                        @ '' '' @ Number_toString (width (sizes ! i)) @ ''w''"
    by (simp add: candidate_def)
  moreover have "createSrcSet NODE_ENV src sizes origin = separated_by '', '' ?cands"
    by (simp add: createSrcSet_def join_separated_by)
  ultimately show ?thesis by blast
qed

theorem createSrcSet_candidates_witness:
  "(0::nat) < length [\<lparr>width = 320, height = 568\<rparr>, \<lparr>width = 768, height = 1024\<rparr>]
   \<and> createSrcSet (Some ''production'') ''/a.jpg''
        [\<lparr>width = 320, height = 568\<rparr>, \<lparr>width = 768, height = 1024\<rparr>] (Some ''https://site'')
      = ''//wsrv.nl?url=https://site/a.jpg?w=320&h=568 320w, //wsrv.nl?url=https://site/a.jpg?w=768&h=1024 768w''"
proof -
  have "createSrcSet (Some ''production'') ''/a.jpg''
        [\<lparr>width = 320, height = 568\<rparr>, \<lparr>width = 768, height = 1024\<rparr>] (Some ''https://site'')
      = ''//wsrv.nl?url=https://site/a.jpg?w=320&h=568 320w, //wsrv.nl?url=https://site/a.jpg?w=768&h=1024 768w''"
    by code_simp
  then show ?thesis
    using createSrcSet_candidates [of "[\<lparr>width = 320, height = 568\<rparr>, \<lparr>width = 768, height = 1024\<rparr>]"
            "Some ''production''" "''/a.jpg''" "Some ''https://site''"]
    by simp
qed

text \<open>
  Claim C6. The sizes string consists of exactly as many clauses as the catalog has
  breakpoints, joined by \<^verbatim>\<open>", "\<close>; the clause at each position comes from the breakpoint
  at that position (nothing is dropped, merged or reordered) and is
  \<^verbatim>\<open>(max-width: {width}px) {width}px\<close>, that breakpoint's width twice.
\<close>

theorem getWidths_clauses:
  "\<exists>clauses. length clauses = length sizes
     \<and> (\<forall>i<length sizes.
           clauses ! i = ''(max-width: '' @ Number_toString (width (sizes ! i)) @ ''px) ''
                          @ Number_toString (width (sizes ! i)) @ ''px'')
     \<and> getWidths sizes = separated_by '', '' clauses"
proof -
  let ?clauses = "map (\<lambda>sz. ''(max-width: '' @ Number_toString (width sz) @ ''px) ''
                   @ Number_toString (width sz) @ ''px'') sizes"
  have "length ?clauses = length sizes" by simp
  moreover have "\<forall>i<length sizes.
           ?clauses ! i = ''(max-width: '' @ Number_toString (width (sizes ! i)) @ ''px) ''
                          @ Number_toString (width (sizes ! i)) @ ''px''"
    by simp
  moreover have "getWidths sizes = separated_by '', '' ?clauses"
    by (simp only: getWidths_def join_separated_by)
  ultimately show ?thesis by blast
qed

theorem getWidths_clauses_witness:
  "(0::nat) < length [\<lparr>width = 768, height = 1\<rparr>, \<lparr>width = 320, height = 2\<rparr>, \<lparr>width = 768, height = 3\<rparr>]
   \<and> getWidths [\<lparr>width = 768, height = 1\<rparr>, \<lparr>width = 320, height = 2\<rparr>, \<lparr>width = 768, height = 3\<rparr>]
      = ''(max-width: 768px) 768px, (max-width: 320px) 320px, (max-width: 768px) 768px''"
proof -
  have "getWidths [\<lparr>width = 768, height = 1\<rparr>, \<lparr>width = 320, height = 2\<rparr>, \<lparr>width = 768, height = 3\<rparr>]
      = ''(max-width: 768px) 768px, (max-width: 320px) 320px, (max-width: 768px) 768px''"
    by code_simp
  then show ?thesis
    using getWidths_clauses [of "[\<lparr>width = 768, height = 1\<rparr>, \<lparr>width = 320, height = 2\<rparr>, \<lparr>width = 768, height = 3\<rparr>]"]
    by simp
qed

section \<open>Resolution\<close>

text \<open>
  Claim C2 speaks of every explicit origin. The guard \<^verbatim>\<open>!origin\<close> also holds for an origin
  that is supplied but empty, and the path is then proxy-wrapped in development too, and
  joined to no origin in production.
\<close>

theorem explicit_empty_origin_counterexample:
  "trueSrc (Some ''development'') ''a.jpg'' (Some []) = ''//wsrv.nl?url=a.jpg''
   \<and> trueSrc (Some ''development'') ''a.jpg'' (Some []) \<noteq> ''a.jpg''
   \<and> trueSrc (Some ''production'') ''a.jpg'' (Some []) \<noteq> ''//wsrv.nl?url='' @ [] @ ''/'' @ ''a.jpg''"
  by (simp add: trueSrc_def falsy_def)

text \<open>
  Claim C2, amended. For every non-empty path and every non-empty explicit origin: outside
  production the path is returned unmodified; in production origin and path are
  concatenated, with one \<^verbatim>\<open>/\<close> inserted exactly when the path does not start with one, and
  \<^verbatim>\<open>//wsrv.nl?url=\<close> is put in front.
\<close>

theorem trueSrc_with_origin:
  assumes "path \<noteq> []" and "origin = Some orig" and "orig \<noteq> []"
  shows "(NODE_ENV \<noteq> Some ''production'' \<longrightarrow> trueSrc NODE_ENV path origin = path)
       \<and> (NODE_ENV = Some ''production'' \<longrightarrow>
            trueSrc NODE_ENV path origin
              = ''//wsrv.nl?url='' @ orig @ (if hd path = CHR ''/'' then [] else ''/'') @ path)"
proof -
  have nf: "\<not> falsy origin" using assms(2,3) by (simp add: falsy_def)
  have sw: "startsWith path ''/'' = (hd path = CHR ''/'')"
    using assms(1) by (cases path) (simp_all add: startsWith_def)
  show ?thesis using nf sw assms(2) by (simp add: trueSrc_def)
qed

theorem trueSrc_with_origin_witness:
  "''a.jpg'' \<noteq> [] \<and> ''https://site'' \<noteq> []
   \<and> Some ''development'' \<noteq> Some ''production''
   \<and> trueSrc (Some ''development'') ''a.jpg'' (Some ''https://site'') = ''a.jpg''
   \<and> trueSrc (Some ''production'') ''a.jpg'' (Some ''https://site'')
       = ''//wsrv.nl?url=https://site/a.jpg''
   \<and> trueSrc (Some ''production'') ''/a.jpg'' (Some ''https://site'')
       = ''//wsrv.nl?url=https://site/a.jpg''"
  using trueSrc_with_origin [of "''a.jpg''" "Some ''https://site''" "''https://site''" "Some ''development''"]
        trueSrc_with_origin [of "''a.jpg''" "Some ''https://site''" "''https://site''" "Some ''production''"]
        trueSrc_with_origin [of "''/a.jpg''" "Some ''https://site''" "''https://site''" "Some ''production''"]
  by simp

text \<open>
  Claim C3 asks for the proxy prefix in every build mode whenever no origin is supplied.
  The \<^verbatim>\<open>createSrcSet\<close> of \<^verbatim>\<open>src/Image.tsx\<close> is never given an origin, and outside production
  it leaves the path as it is (its documentation: ``Does not cache images in development
  mode'').
\<close>

theorem Image_tsx_development_counterexample:
  "trueSrc_Image (Some ''development'') ''https://site'' ''https://x/y.jpg''
     \<noteq> ''//wsrv.nl?url='' @ ''https://x/y.jpg''
   \<and> createSrcSet_Image (Some ''development'') ''https://site'' ''https://x/y.jpg''
        [\<lparr>width = 320, height = 320\<rparr>] = ''https://x/y.jpg?w=320&h=320 320w''"
  by code_simp

text \<open>
  Claim C3, amended. With no origin supplied, the origin-aware \<^verbatim>\<open>createSrcSet\<close> resolves
  the path to \<^verbatim>\<open>//wsrv.nl?url=\<close> followed by the path unmodified, in every build mode. The
  \<^verbatim>\<open>createSrcSet\<close> of \<^verbatim>\<open>src/Image.tsx\<close> adds that prefix in production only, after putting
  \<^verbatim>\<open>window.location.origin\<close> before a path that \<^verbatim>\<open>isDomain\<close> rejects; in any other mode it
  returns the path unmodified.
\<close>

theorem resolution_without_origin:
  "trueSrc NODE_ENV path None = ''//wsrv.nl?url='' @ path
   \<and> trueSrc_Image NODE_ENV location_origin path =
       (if NODE_ENV = Some ''production''
        then ''//wsrv.nl?url='' @
               (if isDomain path then path
                else if startsWith path ''/'' then location_origin @ path
                else location_origin @ ''/'' @ path)
        else path)"
  by (simp add: trueSrc_def falsy_def trueSrc_Image_def)

section \<open>Wire format\<close>




section \<open>No failing branch\<close>

text \<open>
  Claim C7 expects a failure on an empty catalog. Neither function has a failing branch
  (the source holds no \<^verbatim>\<open>throw\<close> and no check of the catalog): both return a string, the
  empty one.
\<close>

theorem empty_catalog_counterexample:
  "getWidths [] = [] \<and> createSrcSet (Some ''production'') ''https://x/y.jpg'' [] None = []"
  by (simp add: getWidths_def createSrcSet_def join_def)

text \<open>
  Claim C7, amended. Building a descriptor from an empty catalog does not fail: the sizes
  string and the srcset string are both empty, for every path, origin and build mode, and
  mounting goes on with these empty strings and no selected size.
\<close>

theorem empty_catalog_empty_descriptor:
  "getWidths [] = []
   \<and> createSrcSet NODE_ENV src [] origin = []
   \<and> createSrcSet_Image NODE_ENV location_origin src [] = []
   \<and> Image_mount NODE_ENV src (Some []) (Some preload) origin head clientWidth
       = (preload_effect preload [] [] head, None)"
  by (simp add: getWidths_def createSrcSet_def createSrcSet_Image_def join_def Image_mount_def
      handleResize_def)

text \<open>
  Claim C8 expects a failure on an empty path. The path is never inspected apart from
  \<^verbatim>\<open>startsWith\<close>; an empty path is resolved like any other.
\<close>

theorem empty_path_counterexample:
  "createSrcSet (Some ''production'') [] [\<lparr>width = 320, height = 320\<rparr>] None
     = ''//wsrv.nl?url=?w=320&h=320 320w''"
  by code_simp

text \<open>
  Claim C8, amended. Resolving an empty path does not fail and returns a string: the bare
  proxy prefix when no origin is given, the prefix followed by the origin and \<^verbatim>\<open>/\<close> in
  production with an origin, and the empty string otherwise.
\<close>

theorem empty_path_resolves:
  "trueSrc NODE_ENV [] origin =
     (if falsy origin then ''//wsrv.nl?url=''
      else if NODE_ENV = Some ''production'' then ''//wsrv.nl?url='' @ the origin @ ''/''
      else [])"
  by (simp add: trueSrc_def startsWith_def)

section \<open>The hint registry\<close>

lemma find_snoc:
  "find P (xs @ [y]) = (case find P xs of None \<Rightarrow> (if P y then Some y else None) | Some x \<Rightarrow> Some x)"
  by (induction xs) auto



















end
